theory Spec2Isabelle
  imports Main "HOL-Library.Word"
begin

section \<open>JavaScript strings and the string builtins the bot calls\<close>

text \<open>
  A JavaScript string is a sequence of UTF-16 code units. The builtins below are the ones
  \<^verbatim>\<open>SucklessBot\<close> calls on message contents and file names: \<^verbatim>\<open>startsWith\<close>,
  \<^verbatim>\<open>endsWith\<close>, \<^verbatim>\<open>replace\<close> with a string pattern, \<^verbatim>\<open>trim\<close> and
  \<^verbatim>\<open>split\<close> with the regular expression \<^verbatim>\<open>/ +/\<close>.
\<close>

type_synonym jschar = "16 word"
type_synonym jsstring = "jschar list"

abbreviation js :: "string \<Rightarrow> jsstring" where
  "js s \<equiv> map of_char s"

text \<open>The only character the regular expression \<^verbatim>\<open>/ +/\<close> matches: U+0020.\<close>

definition isSpace :: "jschar \<Rightarrow> bool" where
  "isSpace c = (c = 0x20)"

text \<open>
  What \<^verbatim>\<open>trim\<close> removes: the WhiteSpace and LineTerminator code points of ECMAScript
  (tab, line feed, vertical tab, form feed, carriage return, space, no-break space, the
  Unicode space separators, line and paragraph separator, byte order mark).
\<close>

definition isWhiteSpace :: "jschar \<Rightarrow> bool" where
  "isWhiteSpace c =
     (c \<in> set [0x09, 0x0A, 0x0B, 0x0C, 0x0D, 0x20, 0xA0, 0x1680,
               0x2028, 0x2029, 0x202F, 0x205F, 0x3000, 0xFEFF]
      \<or> (0x2000 \<le> c \<and> c \<le> 0x200A))"

definition trim :: "jsstring \<Rightarrow> jsstring" where
  "trim s = rev (dropWhile isWhiteSpace (rev (dropWhile isWhiteSpace s)))"

definition startsWith :: "jsstring \<Rightarrow> jsstring \<Rightarrow> bool" where
  "startsWith s p = (take (length p) s = p)"

definition endsWith :: "jsstring \<Rightarrow> jsstring \<Rightarrow> bool" where
  "endsWith s p = (length p \<le> length s \<and> drop (length s - length p) s = p)"

text \<open>
  \<^verbatim>\<open>s.replace(pat, rep)\<close> with a string pattern replaces the leftmost occurrence of
  \<^verbatim>\<open>pat\<close> only. The bot's replacement is the empty string, so the \<^verbatim>\<open>$\<close> patterns of
  replacement strings play no part.
\<close>

fun replace :: "jsstring \<Rightarrow> jsstring \<Rightarrow> jsstring \<Rightarrow> jsstring" where
  "replace [] pat rep = (if pat = [] then rep else [])"
| "replace (c # cs) pat rep =
     (if startsWith (c # cs) pat then rep @ drop (length pat) (c # cs)
      else c # replace cs pat rep)"

text \<open>
  \<^verbatim>\<open>s.split(re)\<close> for a regular expression that matches the non-empty runs of the
  characters satisfying \<open>P\<close>: a run at the start or at the end of the string leaves an
  empty token there, and the empty string splits into one empty token.
\<close>

function split_runs :: "('a \<Rightarrow> bool) \<Rightarrow> 'a list \<Rightarrow> 'a list list" where
  "split_runs P [] = [[]]"
| "split_runs P (c # cs) =
     (if P c then [] # split_runs P (dropWhile P cs)
      else (case split_runs P cs of [] \<Rightarrow> [[c]] | t # ts \<Rightarrow> (c # t) # ts))"
  by pat_completeness auto
termination
  by (relation "measure (\<lambda>(P, s). length s)")
     (auto simp: length_dropWhile_le le_imp_less_Suc)

text \<open>\<^verbatim>\<open>s.split(/ +/)\<close>\<close>

definition split_spaces :: "jsstring \<Rightarrow> jsstring list" where
  "split_spaces s = split_runs isSpace s"

text \<open>
  Decimal printing of a non-negative integer and \<^verbatim>\<open>Array.prototype.toString\<close> (the
  elements joined by commas), which \<^verbatim>\<open>__init\<close> applies to the configured intents.
\<close>

fun showNat :: "nat \<Rightarrow> jsstring" where
  "showNat n = (if n < 10 then [of_nat (48 + n)]
                else showNat (n div 10) @ [of_nat (48 + n mod 10)])"

declare showNat.simps [simp del]

fun join_comma :: "jsstring list \<Rightarrow> jsstring" where
  "join_comma [] = []"
| "join_comma [x] = x"
| "join_comma (x # y # ys) = x @ 0x2C # join_comma (y # ys)"

section \<open>Data model\<close>

text \<open>
  Mods are JavaScript objects: the command manager and the mod list hold references to
  them, and \<^verbatim>\<open>includes\<close> compares references. A reference is an address; the
  object behind it is read from the heap of loaded modules.
\<close>

type_synonym modref = nat
type_synonym intent = nat

text \<open>Of a \<^verbatim>\<open>Discord.Message\<close> the bot reads the content only.\<close>

record message =
  content :: jsstring

text \<open>
  A value thrown by a handler, as the catch blocks read it: its string conversion and its
  \<^verbatim>\<open>stack\<close> property, which a thrown primitive does not have. Thrown values are
  objects or primitives other than \<^verbatim>\<open>null\<close> and \<^verbatim>\<open>undefined\<close>, on which reading
  \<^verbatim>\<open>e.stack\<close> in the catch block would itself raise.
\<close>

datatype thrown = Thrown (thrown_text: jsstring) (thrown_stack: "jsstring option")

datatype error = TypeError

record ClientOptions =
  ClientOptions_intents :: "intent list"

text \<open>
  The fields of \<^verbatim>\<open>SucklessBot\<close> that loading and dispatch use: \<^verbatim>\<open>config.prefix\<close>,
  \<^verbatim>\<open>__clientOptions\<close> (set by the constructor only when the caller passes client
  options), the command manager's table, the mod list, and the intents the
  \<^verbatim>\<open>Discord.Client\<close> was constructed with (none before \<^verbatim>\<open>__init\<close> has run).
\<close>

record SucklessBot =
  config_prefix :: jsstring
  clientOptions :: "ClientOptions option"
  cmdMgr :: "jsstring \<rightharpoonup> modref"
  mods :: "modref list"
  client :: "intent list option"

text \<open>
  A handler is code of a mod: it acts on the world outside the bot and then returns or
  throws. What is assumed of handlers: they run synchronously and come to an end, they
  leave the bot's own fields and the mod objects alone, and what they throw is not
  \<^verbatim>\<open>null\<close> or \<^verbatim>\<open>undefined\<close>.
\<close>

type_synonym 'w effect = "'w \<Rightarrow> thrown option \<times> 'w"

text \<open>
  Modelled from the spec: the interface \<^verbatim>\<open>DSMod\<close> (interface/DSMod) is not among the
  sources. The fields are those \<^verbatim>\<open>SucklessBot\<close> reads and the mod descriptor of the
  spec names; a field that may be absent is an option, and \<^verbatim>\<open>intents\<close> is one of
  them because the code is what decides whether it may be.
\<close>

record 'w DSMod =
  name :: jsstring
  disabled :: bool
  intents :: "intent list option"
  command :: "jsstring option"
  aliases :: "jsstring list option"
  onInit :: "(SucklessBot \<Rightarrow> 'w effect) option"
  onMsgCreate :: "(message \<Rightarrow> jsstring list option \<Rightarrow> SucklessBot \<Rightarrow> 'w effect) option"
  onMsgDelete :: "(message \<Rightarrow> jsstring list \<Rightarrow> SucklessBot \<Rightarrow> 'w effect) option"
  onMsgUpdate :: "(message \<Rightarrow> message \<Rightarrow> SucklessBot \<Rightarrow> 'w effect) option"

text \<open>
  What a handler was called with. The second argument of \<^verbatim>\<open>onMsgCreate\<close> is the
  argument array or \<^verbatim>\<open>undefined\<close>; \<^verbatim>\<open>onMsgUpdate\<close> gets the old and the new
  message and no array.
\<close>

datatype event =
    Init
  | MsgCreate message "jsstring list option"
  | MsgDelete message "jsstring list"
  | MsgUpdate message message

datatype invocation =
  Invoked (target: modref) (delivered: event) (outcome: "thrown option")

text \<open>
  The observable state: the world the handlers act on, the lines given to
  \<^verbatim>\<open>logger.error\<close>, and the handler invocations made so far with their outcomes (the
  program never reads the last; it records what the dispatcher did). The informational
  \<^verbatim>\<open>logger.log\<close> lines of \<^verbatim>\<open>__init\<close> are left out.
\<close>

record 'w sys =
  world :: 'w
  errors :: "jsstring list"
  calls :: "invocation list"

text \<open>
  The host environment: the locale's lower-casing, the listing of the \<^verbatim>\<open>mods\<close>
  directory, \<^verbatim>\<open>require\<close> (each file of the directory is taken to load), the heap of
  module objects, and the keyword normalisation of the command manager.
\<close>

record 'w node =
  toLocaleLowerCase :: "jsstring \<Rightarrow> jsstring"
  readdir :: "jsstring list"
  require :: "jsstring \<Rightarrow> modref"
  heap :: "modref \<Rightarrow> 'w DSMod"
  normalize :: "jsstring \<Rightarrow> jsstring"

section \<open>Command manager\<close>

text \<open>
  Modelled from the spec: the class \<^verbatim>\<open>CommandManager\<close> (manager/commandmanager) is not
  among the sources. One keyword is inserted unless it is already there, after
  normalisation: the first writer wins, silently.
\<close>

definition register_keyword ::
  "(jsstring \<Rightarrow> jsstring) \<Rightarrow> modref \<Rightarrow> (jsstring \<rightharpoonup> modref) \<Rightarrow> jsstring \<Rightarrow> (jsstring \<rightharpoonup> modref)" where
  "register_keyword norm r reg k =
     (if reg (norm k) = None then reg(norm k \<mapsto> r) else reg)"

text \<open>
  Modelled from the spec: \<^verbatim>\<open>CommandManager.register\<close>, which is not among the sources.
  Each alias in the order given, then the primary command if present.
\<close>

definition register ::
  "(jsstring \<Rightarrow> jsstring) \<Rightarrow> modref \<Rightarrow> 'w DSMod \<Rightarrow> (jsstring \<rightharpoonup> modref) \<Rightarrow> (jsstring \<rightharpoonup> modref)" where
  "register norm r m reg =
     (let reg' = foldl (register_keyword norm r) reg
                   (case aliases m of None \<Rightarrow> [] | Some as \<Rightarrow> as)
      in case command m of None \<Rightarrow> reg' | Some c \<Rightarrow> register_keyword norm r reg' c)"

text \<open>
  Modelled from the spec: \<^verbatim>\<open>CommandManager.getMod\<close>, which is not among the sources.
  Exact match after normalisation, or not found.
\<close>

definition getMod ::
  "(jsstring \<Rightarrow> jsstring) \<Rightarrow> (jsstring \<rightharpoonup> modref) \<Rightarrow> jsstring \<Rightarrow> modref option" where
  "getMod norm reg k = reg (norm k)"

section \<open>Calling a handler\<close>

text \<open>The line of the catch blocks: \<^verbatim>\<open>`[${mod.name}] ${e}\n${e.stack}`\<close>\<close>

definition error_line :: "jsstring \<Rightarrow> thrown \<Rightarrow> jsstring" where
  "error_line nm e =
     js ''['' @ nm @ js ''] '' @ thrown_text e @ 0x0A #
     (case thrown_stack e of None \<Rightarrow> js ''undefined'' | Some st \<Rightarrow> st)"

text \<open>
  \<^verbatim>\<open>try { handler(...) } catch (e) { this.logger.error(...) }\<close>, for a handler that
  throws neither \<^verbatim>\<open>null\<close> nor \<^verbatim>\<open>undefined\<close>; \<open>try_catch\<close> below is the block for
  any thrown value.
\<close>

definition try_call ::
  "modref \<Rightarrow> jsstring \<Rightarrow> event \<Rightarrow> 'w effect \<Rightarrow> 'w sys \<Rightarrow> 'w sys" where
  "try_call r nm ev h s =
     (case h (world s) of (res, w) \<Rightarrow>
        \<lparr>world = w,
         errors = (case res of None \<Rightarrow> errors s | Some e \<Rightarrow> errors s @ [error_line nm e]),
         calls = calls s @ [Invoked r ev res]\<rparr>)"

text \<open>\<^verbatim>\<open>if (!xs.includes(x)) xs.push(x)\<close>\<close>

definition push_unique :: "'a list \<Rightarrow> 'a \<Rightarrow> 'a list" where
  "push_unique xs x = (if x \<in> set xs then xs else xs @ [x])"

section \<open>Loading: \<open>__init\<close>\<close>

definition new_SucklessBot :: "jsstring \<Rightarrow> ClientOptions option \<Rightarrow> SucklessBot" where
  "new_SucklessBot pre opts =
     \<lparr>config_prefix = pre, clientOptions = opts, cmdMgr = Map.empty, mods = [],
      client = None\<rparr>"

text \<open>
  The body of the \<^verbatim>\<open>forEach\<close> over the directory listing, with the intents collected
  so far. Reading \<^verbatim>\<open>mod.intents.forEach\<close> of a mod without \<^verbatim>\<open>intents\<close> raises a
  TypeError, which nothing catches.
\<close>

fun load_mods ::
  "'w node \<Rightarrow> jsstring list \<Rightarrow> intent list \<times> SucklessBot \<times> 'w sys
     \<Rightarrow> error + intent list \<times> SucklessBot \<times> 'w sys" where
  "load_mods env [] acc = Inr acc"
| "load_mods env (item # items) (ints, sb, s) =
     (if \<not> endsWith item (js ''.js'') then load_mods env items (ints, sb, s)
      else let r = require env item; m = heap env r in
        if disabled m then load_mods env items (ints, sb, s)
        else (case intents m of
                None \<Rightarrow> Inl TypeError
              | Some is \<Rightarrow>
                  let ints' = foldl push_unique ints is;
                      sb' = sb\<lparr>cmdMgr := register (normalize env) r m (cmdMgr sb),
                                 mods := mods sb @ [r]\<rparr>;
                      s' = (case onInit m of
                              None \<Rightarrow> s
                            | Some h \<Rightarrow> try_call r (name m) Init (h sb') s)
                  in load_mods env items (ints', sb', s')))"

text \<open>
  \<^verbatim>\<open>__init\<close>: load the mods, then let configured intents replace the collected ones
  when their \<^verbatim>\<open>toString()\<close> is not empty, and construct the client.
  \<^verbatim>\<open>this.__clientOptions\<close> is undefined when the constructor got no client options,
  and reading its \<^verbatim>\<open>intents\<close> raises a TypeError.
\<close>

definition init :: "'w node \<Rightarrow> SucklessBot \<Rightarrow> 'w sys \<Rightarrow> error + SucklessBot \<times> 'w sys" where
  "init env sb s =
     (case load_mods env (readdir env) ([], sb, s) of
        Inl e \<Rightarrow> Inl e
      | Inr (ints, sb', s') \<Rightarrow>
          (case clientOptions sb' of
             None \<Rightarrow> Inl TypeError
           | Some opts \<Rightarrow>
               let ints' = (if join_comma (map showNat (ClientOptions_intents opts)) \<noteq> []
                            then ClientOptions_intents opts else ints)
               in Inr (sb'\<lparr>client := Some ints'\<rparr>, s')))"

section \<open>Dispatch: \<open>__onMessage\<close>, \<open>__onDelete\<close>, \<open>__onUpdate\<close>\<close>

text \<open>The body of both fan-out loops of \<^verbatim>\<open>__onMessage\<close>.\<close>

definition deliver_plain ::
  "'w node \<Rightarrow> SucklessBot \<Rightarrow> message \<Rightarrow> 'w sys \<Rightarrow> modref \<Rightarrow> 'w sys" where
  "deliver_plain env sb msg s r =
     (case onMsgCreate (heap env r) of
        None \<Rightarrow> s
      | Some h \<Rightarrow> try_call r (name (heap env r)) (MsgCreate msg None) (h msg None sb) s)"

text \<open>
  \<^verbatim>\<open>arg.shift()\<close> of an empty array is \<^verbatim>\<open>undefined\<close>, on which
  \<^verbatim>\<open>toLocaleLowerCase\<close> would raise a TypeError.
\<close>

definition onMessage :: "'w node \<Rightarrow> SucklessBot \<Rightarrow> message \<Rightarrow> 'w sys \<Rightarrow> error + 'w sys" where
  "onMessage env sb message s =
     (if \<not> startsWith (content message) (config_prefix sb)
      then Inr (foldl (deliver_plain env sb message) s (mods sb))
      else
        let msg = trim (replace (content message) (config_prefix sb) []);
            arg = split_spaces msg
        in case arg of
             [] \<Rightarrow> Inl TypeError
           | tok # arg' \<Rightarrow>
               let cmd = toLocaleLowerCase env tok in
               (case getMod (normalize env) (cmdMgr sb) cmd of
                  None \<Rightarrow> Inr (foldl (deliver_plain env sb message) s (mods sb))
                | Some r \<Rightarrow>
                    (case onMsgCreate (heap env r) of
                       None \<Rightarrow> Inr s
                     | Some h \<Rightarrow>
                         Inr (try_call r (name (heap env r)) (MsgCreate message (Some arg'))
                                (h message (Some arg') sb) s))))"

definition deliver_delete ::
  "'w node \<Rightarrow> SucklessBot \<Rightarrow> message \<Rightarrow> 'w sys \<Rightarrow> modref \<Rightarrow> 'w sys" where
  "deliver_delete env sb message s r =
     (case onMsgDelete (heap env r) of
        None \<Rightarrow> s
      | Some h \<Rightarrow>
          let arg = split_spaces (content message)
          in try_call r (name (heap env r)) (MsgDelete message arg) (h message arg sb) s)"

definition onDelete :: "'w node \<Rightarrow> SucklessBot \<Rightarrow> message \<Rightarrow> 'w sys \<Rightarrow> 'w sys" where
  "onDelete env sb message s =
     (let mods' = foldl push_unique [] (mods sb)
      in foldl (deliver_delete env sb message) s mods')"



section \<open>The catch block for any thrown value\<close>

text \<open>
  JavaScript lets a handler throw any value, \<^verbatim>\<open>null\<close> and \<^verbatim>\<open>undefined\<close> included.
\<close>

datatype js_thrown = ThrownNull | ThrownUndefined | ThrownValue thrown

type_synonym 'w raw_effect = "'w \<Rightarrow> js_thrown option \<times> 'w"

text \<open>
  The template literal of the catch blocks, \<^verbatim>\<open>`[${mod.name}] ${e}\n${e.stack}`\<close>:
  reading \<^verbatim>\<open>e.stack\<close> of \<^verbatim>\<open>null\<close> or \<^verbatim>\<open>undefined\<close> raises a TypeError, inside the
  catch block, where nothing catches it.
\<close>

definition catch_block :: "jsstring \<Rightarrow> js_thrown \<Rightarrow> error + jsstring" where
  "catch_block nm e =
     (case e of
        ThrownNull \<Rightarrow> Inl TypeError
      | ThrownUndefined \<Rightarrow> Inl TypeError
      | ThrownValue v \<Rightarrow> Inr (error_line nm v))"

text \<open>
  \<^verbatim>\<open>try { handler(...) } catch (e) { this.logger.error(...) }\<close> for such a handler;
  \<open>try_call\<close> is this on the handlers that throw neither \<^verbatim>\<open>null\<close> nor
  \<^verbatim>\<open>undefined\<close>.
\<close>

definition try_catch ::
  "modref \<Rightarrow> jsstring \<Rightarrow> event \<Rightarrow> 'w raw_effect \<Rightarrow> 'w sys \<Rightarrow> error + 'w sys" where
  "try_catch r nm ev h s =
     (case h (world s) of
        (None, w) \<Rightarrow> Inr \<lparr>world = w, errors = errors s, calls = calls s @ [Invoked r ev None]\<rparr>
      | (Some e, w) \<Rightarrow>
          (case catch_block nm e of
             Inl err \<Rightarrow> Inl err
           | Inr line \<Rightarrow>
               Inr \<lparr>world = w, errors = errors s @ [line],
                    calls = calls s @ [Invoked r ev (case e of ThrownValue v \<Rightarrow> Some v | _ \<Rightarrow> None)]\<rparr>))"

text \<open>A handler of the kind assumed so far, among all handlers.\<close>

definition as_raw :: "'w effect \<Rightarrow> 'w raw_effect" where
  "as_raw h = (\<lambda>w. case h w of (res, w') \<Rightarrow> (map_option ThrownValue res, w'))"

text \<open>
  The fan-out loop of \<^verbatim>\<open>__onMessage\<close> over handlers that may throw anything: an
  exception that leaves the callback ends the \<^verbatim>\<open>forEach\<close> and leaves
  \<^verbatim>\<open>__onMessage\<close>.
\<close>

fun forEach_onMsgCreate ::
  "'w node \<Rightarrow> (modref \<Rightarrow> (message \<Rightarrow> jsstring list option \<Rightarrow> SucklessBot \<Rightarrow> 'w raw_effect) option)
     \<Rightarrow> SucklessBot \<Rightarrow> message \<Rightarrow> modref list \<Rightarrow> 'w sys \<Rightarrow> error + 'w sys" where
  "forEach_onMsgCreate env H sb message [] s = Inr s"
| "forEach_onMsgCreate env H sb message (r # rs) s =
     (case H r of
        None \<Rightarrow> forEach_onMsgCreate env H sb message rs s
      | Some h \<Rightarrow>
          (case try_catch r (name (heap env r)) (MsgCreate message None) (h message None sb) s of
             Inl err \<Rightarrow> Inl err
           | Inr s' \<Rightarrow> forEach_onMsgCreate env H sb message rs s'))"

section \<open>Notions the properties are stated with\<close>

text \<open>The array \<^verbatim>\<open>arg\<close> of \<^verbatim>\<open>__onMessage\<close> before \<^verbatim>\<open>arg.shift()\<close>.\<close>

definition command_tokens :: "SucklessBot \<Rightarrow> message \<Rightarrow> jsstring list" where
  "command_tokens sb message =
     split_spaces (trim (replace (content message) (config_prefix sb) []))"

text \<open>The handler invocations made between two states.\<close>

definition new_calls :: "'w sys \<Rightarrow> 'w sys \<Rightarrow> invocation list" where
  "new_calls s s' = drop (length (calls s)) (calls s')"

text \<open>The lines the catch blocks log for a sequence of invocations: one for each that threw.\<close>

definition logged :: "'w node \<Rightarrow> invocation list \<Rightarrow> jsstring list" where
  "logged env cs =
     List.map_filter
       (\<lambda>c. map_option (error_line (name (heap env (target c)))) (outcome c)) cs"

text \<open>The directory items \<^verbatim>\<open>__init\<close> does not skip, and what one of them requests.\<close>

definition loads :: "'w node \<Rightarrow> jsstring \<Rightarrow> bool" where
  "loads env item \<longleftrightarrow> endsWith item (js ''.js'') \<and> \<not> disabled (heap env (require env item))"

definition enabled_items :: "'w node \<Rightarrow> jsstring list \<Rightarrow> jsstring list" where
  "enabled_items env items = filter (loads env) items"

definition requested :: "'w node \<Rightarrow> jsstring \<Rightarrow> intent set" where
  "requested env item =
     (case intents (heap env (require env item)) of None \<Rightarrow> {} | Some is \<Rightarrow> set is)"

text \<open>What the loop body of \<^verbatim>\<open>__init\<close> does with an item it loads, given its intents.\<close>

definition load_step ::
  "'w node \<Rightarrow> jsstring \<Rightarrow> intent list \<Rightarrow> intent list \<times> SucklessBot \<times> 'w sys
     \<Rightarrow> intent list \<times> SucklessBot \<times> 'w sys" where
  "load_step env item is acc =
     (case acc of (ints, sb, s) \<Rightarrow>
        let r = require env item; m = heap env r;
            sb' = sb\<lparr>cmdMgr := register (normalize env) r m (cmdMgr sb), mods := mods sb @ [r]\<rparr>
        in (foldl push_unique ints is, sb',
            (case onInit m of None \<Rightarrow> s | Some h \<Rightarrow> try_call r (name m) Init (h sb') s)))"

text \<open>
  Modelled from the spec, for comparison with \<open>command_tokens\<close>: the spec's words are
  ``strip the prefix and trim whitespace, split on runs of whitespace into tokens''.
\<close>

definition spec_command_tokens :: "SucklessBot \<Rightarrow> message \<Rightarrow> jsstring list" where
  "spec_command_tokens sb message =
     split_runs isWhiteSpace (trim (replace (content message) (config_prefix sb) []))"



text \<open>
  A delivery is a handler call to be made: the mod, what it is called with, and the
  handler applied to that. Calling the handlers of a list of deliveries in turn, from a
  world, gives the invocations with their outcomes, and the world after the last.
\<close>

type_synonym 'w delivery = "modref \<times> event \<times> 'w effect"

fun replay :: "'w delivery list \<Rightarrow> 'w \<Rightarrow> invocation list" where
  "replay [] w = []"
| "replay ((r, ev, h) # ds) w = Invoked r ev (fst (h w)) # replay ds (snd (h w))"

fun world_after :: "'w delivery list \<Rightarrow> 'w \<Rightarrow> 'w" where
  "world_after [] w = w"
| "world_after ((r, ev, h) # ds) w = world_after ds (snd (h w))"

text \<open>
  The deliveries of a plain message: one for each mod of the list that has an on-message
  handler, in the order of the list, with \<^verbatim>\<open>undefined\<close> as the argument.
\<close>

definition plain_deliveries ::
  "'w node \<Rightarrow> SucklessBot \<Rightarrow> message \<Rightarrow> modref list \<Rightarrow> 'w delivery list" where
  "plain_deliveries env sb message ms =
     List.map_filter
       (\<lambda>r. map_option (\<lambda>h. (r, MsgCreate message None, h message None sb))
              (onMsgCreate (heap env r))) ms"

section \<open>A concrete host\<close>

text \<open>
  Four mods and a file that is not one: \<open>A\<close> (command \<^verbatim>\<open>Mute\<close>, alias \<^verbatim>\<open>m\<close>, its
  handlers throw), \<open>B\<close> (command \<^verbatim>\<open>m\<close>, all handlers), \<open>D\<close> (disabled), \<open>Q\<close>
  (a command and no handler), and \<open>X\<close>, which has no \<^verbatim>\<open>intents\<close>. The world is the list
  of the handlers that ran.
\<close>

definition ex_lower :: "jsstring \<Rightarrow> jsstring" where
  "ex_lower s = map (\<lambda>c. if 0x41 \<le> c \<and> c \<le> 0x5A then c + 0x20 else c) s"

definition boom :: thrown where
  "boom = Thrown (js ''Error: boom'') (Some (js ''Error: boom at A''))"

definition mod_A :: "string list DSMod" where
  "mod_A = \<lparr>name = js ''A'', disabled = False, intents = Some [1, 512],
     command = Some (js ''Mute''), aliases = Some [js ''m''],
     onInit = Some (\<lambda>sb w. (Some boom, w @ [''A.init''])),
     onMsgCreate = Some (\<lambda>m a sb w. (if a = None then Some boom else None, w @ [''A.create''])),
     onMsgDelete = None, onMsgUpdate = None\<rparr>"

definition mod_B :: "string list DSMod" where
  "mod_B = \<lparr>name = js ''B'', disabled = False, intents = Some [512, 2],
     command = Some (js ''m''), aliases = None,
     onInit = Some (\<lambda>sb w. (None, w @ [''B.init''])),
     onMsgCreate = Some (\<lambda>m a sb w. (None, w @ [''B.create''])),
     onMsgDelete = Some (\<lambda>m a sb w. (None, w @ [''B.delete''])),
     onMsgUpdate = Some (\<lambda>m m' sb w. (None, w @ [''B.update'']))\<rparr>"

definition mod_D :: "string list DSMod" where
  "mod_D = \<lparr>name = js ''D'', disabled = True, intents = Some [4],
     command = Some (js ''ban''), aliases = Some [js ''m''],
     onInit = Some (\<lambda>sb w. (None, w @ [''D.init''])),
     onMsgCreate = Some (\<lambda>m a sb w. (None, w @ [''D.create''])),
     onMsgDelete = None, onMsgUpdate = None\<rparr>"

definition mod_Q :: "string list DSMod" where
  "mod_Q = \<lparr>name = js ''Q'', disabled = False, intents = Some [],
     command = Some (js ''quiet''), aliases = None,
     onInit = None, onMsgCreate = None, onMsgDelete = None, onMsgUpdate = None\<rparr>"

definition mod_X :: "string list DSMod" where
  "mod_X = \<lparr>name = js ''X'', disabled = False, intents = None,
     command = Some (js ''x''), aliases = None,
     onInit = None, onMsgCreate = None, onMsgDelete = None, onMsgUpdate = None\<rparr>"

definition ex_require :: "jsstring \<Rightarrow> modref" where
  "ex_require item =
     (if item = js ''a.js'' then 1 else if item = js ''b.js'' then 2
      else if item = js ''d.js'' then 3 else if item = js ''q.js'' then 4 else 5)"

definition ex_heap :: "modref \<Rightarrow> string list DSMod" where
  "ex_heap r = (if r = 1 then mod_A else if r = 2 then mod_B
                else if r = 3 then mod_D else if r = 4 then mod_Q else mod_X)"

definition ex_env :: "string list node" where
  "ex_env = \<lparr>toLocaleLowerCase = ex_lower,
     readdir = [js ''d.js'', js ''a.js'', js ''notes.txt'', js ''b.js'', js ''q.js''],
     require = ex_require, heap = ex_heap, normalize = ex_lower\<rparr>"

definition ex_bot :: SucklessBot where
  "ex_bot = \<lparr>config_prefix = js ''!'',
     clientOptions = Some \<lparr>ClientOptions_intents = []\<rparr>,
     cmdMgr = [js ''m'' \<mapsto> 1, js ''mute'' \<mapsto> 1, js ''quiet'' \<mapsto> 4],
     mods = [1, 2, 4], client = Some [1, 512, 2]\<rparr>"

definition s0 :: "string list sys" where
  "s0 = \<lparr>world = [], errors = [], calls = []\<rparr>"

definition msg_tab :: message where
  "msg_tab = \<lparr>content = js ''!mute'' @ 0x09 # js ''@user''\<rparr>"

definition msg_cmd :: message where
  "msg_cmd = \<lparr>content = js ''!M  @user now''\<rparr>"

definition msg_plain :: message where
  "msg_plain = \<lparr>content = js ''hello''\<rparr>"

definition msg_unknown :: message where
  "msg_unknown = \<lparr>content = js ''! ''\<rparr>"

definition msg_quiet :: message where
  "msg_quiet = \<lparr>content = js ''!quiet please''\<rparr>"

text \<open>
  The bot as constructed, the state after loading, and a mod list that names one mod
  twice.
\<close>

definition ex_new :: SucklessBot where
  "ex_new = new_SucklessBot (js ''!'') (Some \<lparr>ClientOptions_intents = []\<rparr>)"

definition ex_loaded :: "string list sys" where
  "ex_loaded = \<lparr>world = [''A.init'', ''B.init''],
     errors = [js ''[A] Error: boom'' @ 0x0A # js ''Error: boom at A''],
     calls = [Invoked 1 Init (Some boom), Invoked 2 Init None]\<rparr>"


text \<open>
  A directory in which two files give the same module object (a link to \<^verbatim>\<open>b.js\<close>, or
  a file that exports what \<^verbatim>\<open>b.js\<close> exports), the bot it loads to, and handlers of
  which \<open>A\<close>'s throws \<^verbatim>\<open>null\<close>.
\<close>

definition ex_alias_env :: "string list node" where
  "ex_alias_env = ex_env\<lparr>readdir := [js ''b.js'', js ''b2.js''], require := (\<lambda>item. 2)\<rparr>"

definition ex_alias_bot :: SucklessBot where
  "ex_alias_bot = \<lparr>config_prefix = js ''!'',
     clientOptions = Some \<lparr>ClientOptions_intents = []\<rparr>,
     cmdMgr = [js ''m'' \<mapsto> 2], mods = [2, 2], client = Some [512, 2]\<rparr>"

definition ex_null_handlers ::
  "modref \<Rightarrow> (message \<Rightarrow> jsstring list option \<Rightarrow> SucklessBot \<Rightarrow> string list raw_effect) option" where
  "ex_null_handlers r =
     (if r = 1 then Some (\<lambda>m a sb w. (Some ThrownNull, w @ [''A.create'']))
      else map_option (\<lambda>h m a sb. as_raw (h m a sb)) (onMsgCreate (ex_heap r)))"

section \<open>Lemmas\<close>

lemmas ex_defs = ex_env_def ex_bot_def ex_heap_def ex_require_def ex_lower_def s0_def
  mod_A_def mod_B_def mod_D_def mod_Q_def mod_X_def boom_def

lemmas msg_defs = msg_tab_def msg_cmd_def msg_plain_def msg_unknown_def msg_quiet_def

lemmas eval_defs = onMessage_def startsWith_def deliver_plain_def try_call_def error_line_def
  trim_def isWhiteSpace_def split_spaces_def isSpace_def getMod_def command_tokens_def
  new_calls_def logged_def

lemmas load_defs = init_def new_SucklessBot_def endsWith_def register_def register_keyword_def
  push_unique_def try_call_def error_line_def load_mods.simps ex_new_def ex_loaded_def
  enabled_items_def loads_def

subsection \<open>Strings\<close>

lemma split_runs_not_Nil: "split_runs P s \<noteq> []"
  by (induction P s rule: split_runs.induct) (auto split: list.splits)

lemma replace_startsWith: "startsWith s p \<Longrightarrow> replace s p [] = drop (length p) s"
  by (cases s) (auto simp: startsWith_def)

lemma showNat_not_Nil: "showNat n \<noteq> []"
  by (subst showNat.simps) simp

lemma join_comma_Nil: "join_comma ys = [] \<longleftrightarrow> ys = [] \<or> ys = [[]]"
  by (induction ys rule: join_comma.induct) auto

lemma toString_intents_Nil: "join_comma (map showNat xs) = [] \<longleftrightarrow> xs = []"
  by (cases xs) (auto simp: join_comma_Nil showNat_not_Nil)

lemma command_tokens_not_Nil: "command_tokens sb message \<noteq> []"
  by (simp add: command_tokens_def split_spaces_def split_runs_not_Nil)

subsection \<open>Calling handlers in turn\<close>

lemma push_unique_set: "set (foldl push_unique xs ys) = set xs \<union> set ys"
  by (induction ys arbitrary: xs) (auto simp: push_unique_def)

lemma push_unique_distinct: "distinct xs \<Longrightarrow> distinct (foldl push_unique xs ys)"
  by (induction ys arbitrary: xs) (auto simp: push_unique_def)


lemma try_call_calls:
  "calls (try_call r nm ev h s) = calls s @ [Invoked r ev (fst (h (world s)))]"
  by (simp add: try_call_def split: prod.splits)

lemma try_call_errors:
  "errors (try_call r nm ev h s) =
     errors s @ (case fst (h (world s)) of None \<Rightarrow> [] | Some e \<Rightarrow> [error_line nm e])"
  by (simp add: try_call_def split: prod.splits option.splits)

lemma try_call_world: "world (try_call r nm ev h s) = snd (h (world s))"
  by (simp add: try_call_def split: prod.splits)


lemma new_calls_append: "calls s' = calls s @ cs \<Longrightarrow> new_calls s s' = cs"
  by (simp add: new_calls_def)

lemma onMessage_plain:
  "\<not> startsWith (content message) (config_prefix sb) \<Longrightarrow>
   onMessage env sb message s = Inr (foldl (deliver_plain env sb message) s (mods sb))"
  by (simp add: onMessage_def)

lemma onMessage_command:
  assumes "startsWith (content message) (config_prefix sb)"
    and "command_tokens sb message = tok # args"
  shows "onMessage env sb message s =
     (case getMod (normalize env) (cmdMgr sb) (toLocaleLowerCase env tok) of
        None \<Rightarrow> Inr (foldl (deliver_plain env sb message) s (mods sb))
      | Some r \<Rightarrow>
          (case onMsgCreate (heap env r) of
             None \<Rightarrow> Inr s
           | Some h \<Rightarrow>
               Inr (try_call r (name (heap env r)) (MsgCreate message (Some args))
                      (h message (Some args) sb) s)))"
  using assms by (simp add: onMessage_def command_tokens_def Let_def)

lemma logged_Cons:
  "logged env (Invoked r ev res # cs) =
     (case res of None \<Rightarrow> [] | Some e \<Rightarrow> [error_line (name (heap env r)) e]) @ logged env cs"
  by (simp add: logged_def split: option.splits)

lemma plain_deliveries_Nil: "plain_deliveries env sb message [] = []"
  by (simp add: plain_deliveries_def)

lemma plain_deliveries_Cons:
  "plain_deliveries env sb message (r # ms) =
     (case onMsgCreate (heap env r) of
        None \<Rightarrow> plain_deliveries env sb message ms
      | Some h \<Rightarrow> (r, MsgCreate message None, h message None sb) # plain_deliveries env sb message ms)"
  by (simp add: plain_deliveries_def split: option.splits)

lemma plain_fanout_state:
  "foldl (deliver_plain env sb message) s ms =
     \<lparr>world = world_after (plain_deliveries env sb message ms) (world s),
      errors = errors s @ logged env (replay (plain_deliveries env sb message ms) (world s)),
      calls = calls s @ replay (plain_deliveries env sb message ms) (world s)\<rparr>"
proof (induction ms arbitrary: s)
  case Nil
  show ?case by (simp add: plain_deliveries_def logged_def)
next
  case (Cons r ms)
  show ?case
  proof (cases "onMsgCreate (heap env r)")
    case None
    then have "deliver_plain env sb message s r = s" by (simp add: deliver_plain_def)
    then show ?thesis using Cons.IH[of s] None by (simp add: plain_deliveries_Cons)
  next
    case (Some h)
    let ?s1 = "try_call r (name (heap env r)) (MsgCreate message None) (h message None sb) s"
    have s1: "deliver_plain env sb message s r = ?s1" using Some by (simp add: deliver_plain_def)
    show ?thesis
      using Cons.IH[of ?s1] Some
      by (simp add: s1 plain_deliveries_Cons try_call_calls try_call_errors try_call_world
          logged_Cons split: option.splits)
  qed
qed

lemma plain_deliveries_targets:
  "map fst (plain_deliveries env sb message ms) = filter (\<lambda>r. onMsgCreate (heap env r) \<noteq> None) ms"
  by (induction ms) (auto simp: plain_deliveries_Nil plain_deliveries_Cons split: option.splits)

lemma replay_targets: "map target (replay ds w) = map fst ds"
  by (induction ds w rule: replay.induct) auto

lemma replay_delivered:
  "\<forall>d \<in> set ds. fst (snd d) = ev \<Longrightarrow> \<forall>c \<in> set (replay ds w). delivered c = ev"
  by (induction ds w rule: replay.induct) auto

lemma plain_deliveries_events:
  "\<forall>d \<in> set (plain_deliveries env sb message ms). fst (snd d) = MsgCreate message None"
  by (induction ms) (auto simp: plain_deliveries_Nil plain_deliveries_Cons split: option.splits)

lemma try_catch_as_raw: "try_catch r nm ev (as_raw h) s = Inr (try_call r nm ev h s)"
  by (auto simp: try_catch_def as_raw_def try_call_def catch_block_def
      split: prod.splits option.splits)

lemma forEach_onMsgCreate_as_raw:
  assumes "\<And>r. H r = map_option (\<lambda>h m a sb. as_raw (h m a sb)) (onMsgCreate (heap env r))"
  shows "forEach_onMsgCreate env H sb message ms s = Inr (foldl (deliver_plain env sb message) s ms)"
  by (induction ms arbitrary: s)
     (auto simp: assms deliver_plain_def try_catch_as_raw split: option.splits)



subsection \<open>The command manager\<close>

lemma register_keyword_keep:
  "reg k = Some r \<Longrightarrow> register_keyword norm r' reg k' k = Some r"
  by (auto simp: register_keyword_def)

lemma register_keywords_keep:
  "reg k = Some r \<Longrightarrow> foldl (register_keyword norm r') reg ks k = Some r"
  by (induction ks arbitrary: reg) (auto simp: register_keyword_keep)

lemma register_keep: "reg k = Some r \<Longrightarrow> register norm r' m reg k = Some r"
  by (auto simp: register_def Let_def register_keywords_keep register_keyword_keep
      split: option.splits)

lemma register_keyword_claims:
  "reg (norm k) = None \<Longrightarrow> register_keyword norm r reg k (norm k) = Some r"
  by (simp add: register_keyword_def)

lemma register_keywords_claims:
  "reg (norm x) = None \<Longrightarrow> a \<in> set ks \<Longrightarrow> norm a = norm x \<Longrightarrow>
   foldl (register_keyword norm r) reg ks (norm x) = Some r"
proof (induction ks arbitrary: reg)
  case Nil
  then show ?case by simp
next
  case (Cons k ks)
  show ?case
  proof (cases "norm k = norm x")
    case True
    then have "register_keyword norm r reg k (norm x) = Some r"
      using Cons.prems(1) by (simp add: register_keyword_def)
    then show ?thesis by (simp add: register_keywords_keep)
  next
    case False
    then have "register_keyword norm r reg k (norm x) = None"
      using Cons.prems(1) by (simp add: register_keyword_def)
    moreover have "a \<in> set ks" using Cons.prems False by auto
    ultimately show ?thesis using Cons.IH Cons.prems(3) by simp
  qed
qed

lemma ran_register_keyword: "ran (register_keyword norm r reg k) \<subseteq> insert r (ran reg)"
  by (auto simp: register_keyword_def ran_def)

lemma ran_register_keywords:
  "ran (foldl (register_keyword norm r) reg ks) \<subseteq> insert r (ran reg)"
proof (induction ks arbitrary: reg)
  case Nil
  show ?case by auto
next
  case (Cons k ks)
  have "ran (foldl (register_keyword norm r) (register_keyword norm r reg k) ks)
          \<subseteq> insert r (ran (register_keyword norm r reg k))"
    by (rule Cons.IH)
  also have "\<dots> \<subseteq> insert r (ran reg)"
    using ran_register_keyword[of norm r reg k] by auto
  finally show ?case by simp
qed

lemma ran_register: "ran (register norm r m reg) \<subseteq> insert r (ran reg)"
proof -
  let ?reg' = "foldl (register_keyword norm r) reg (case aliases m of None \<Rightarrow> [] | Some as \<Rightarrow> as)"
  have a: "ran ?reg' \<subseteq> insert r (ran reg)" by (rule ran_register_keywords)
  show ?thesis
  proof (cases "command m")
    case None
    then show ?thesis using a by (simp add: register_def Let_def)
  next
    case (Some c)
    have "ran (register_keyword norm r ?reg' c) \<subseteq> insert r (ran ?reg')"
      by (rule ran_register_keyword)
    then show ?thesis using a Some by (auto simp: register_def Let_def)
  qed
qed

subsection \<open>Loading\<close>

lemma logged_append: "logged env (cs @ cs') = logged env cs @ logged env cs'"
  by (simp add: logged_def List.map_filter_def)

lemma load_mods_skip:
  "\<not> loads env item \<Longrightarrow> load_mods env (item # items) acc = load_mods env items acc"
  by (cases acc rule: prod_cases3) (auto simp: loads_def)

lemma load_mods_load:
  "loads env item \<Longrightarrow>
   load_mods env (item # items) acc =
     (case intents (heap env (require env item)) of
        None \<Rightarrow> Inl TypeError
      | Some is \<Rightarrow> load_mods env items (load_step env item is acc))"
  by (cases acc rule: prod_cases3) (auto simp: loads_def load_step_def Let_def split: option.splits)

declare load_mods.simps(2) [simp del]

lemma load_mods_enabled:
  "load_mods env items acc = load_mods env (enabled_items env items) acc"
proof (induction items arbitrary: acc)
  case Nil
  show ?case by (simp add: enabled_items_def)
next
  case (Cons item items)
  show ?case
  proof (cases "loads env item")
    case False
    then show ?thesis using Cons.IH by (simp add: load_mods_skip enabled_items_def)
  next
    case True
    then show ?thesis
      using Cons.IH by (simp add: load_mods_load enabled_items_def split: option.splits)
  qed
qed

lemma load_mods_succeeds:
  "(\<forall>item \<in> set (enabled_items env items). intents (heap env (require env item)) \<noteq> None)
   \<Longrightarrow> \<exists>acc'. load_mods env items acc = Inr acc'"
proof (induction items arbitrary: acc)
  case Nil
  show ?case by (cases acc rule: prod_cases3) simp
next
  case (Cons item items)
  have rest: "\<forall>item \<in> set (enabled_items env items). intents (heap env (require env item)) \<noteq> None"
    using Cons.prems by (auto simp: enabled_items_def)
  show ?case
  proof (cases "loads env item")
    case False
    then show ?thesis using Cons.IH[OF rest] by (simp add: load_mods_skip)
  next
    case True
    then obtain ns where "intents (heap env (require env item)) = Some ns"
      using Cons.prems by (auto simp: enabled_items_def)
    then show ?thesis using Cons.IH[OF rest] True by (simp add: load_mods_load)
  qed
qed

lemma load_mods_fails:
  "item \<in> set (enabled_items env items) \<Longrightarrow> intents (heap env (require env item)) = None
   \<Longrightarrow> load_mods env items acc = Inl TypeError"
proof (induction items arbitrary: acc)
  case Nil
  then show ?case by (simp add: enabled_items_def)
next
  case (Cons i items)
  show ?case
  proof (cases "loads env i")
    case False
    then have "item \<in> set (enabled_items env items)"
      using Cons.prems(1) by (auto simp: enabled_items_def)
    then show ?thesis
      using Cons.IH Cons.prems(2) False by (simp add: load_mods_skip)
  next
    case True
    show ?thesis
    proof (cases "intents (heap env (require env i))")
      case None
      then show ?thesis using True by (simp add: load_mods_load)
    next
      case (Some ns)
      then have "item \<noteq> i" using Cons.prems(2) by auto
      then have "item \<in> set (enabled_items env items)"
        using Cons.prems(1) by (auto simp: enabled_items_def split: if_splits)
      then show ?thesis
        using Cons.IH Cons.prems(2) True Some by (simp add: load_mods_load)
    qed
  qed
qed

lemma load_step_fields:
  "load_step env item ns (ints, sb, s) = (ints', sb', s') \<Longrightarrow>
     ints' = foldl push_unique ints ns
   \<and> mods sb' = mods sb @ [require env item]
   \<and> cmdMgr sb' = register (normalize env) (require env item) (heap env (require env item)) (cmdMgr sb)
   \<and> clientOptions sb' = clientOptions sb \<and> config_prefix sb' = config_prefix sb
   \<and> client sb' = client sb"
  by (auto simp: load_step_def Let_def)

lemma load_step_calls:
  "load_step env item ns (ints, sb, s) = (ints', sb', s') \<Longrightarrow>
   \<exists>cs. calls s' = calls s @ cs
     \<and> map target cs = (if onInit (heap env (require env item)) \<noteq> None then [require env item] else [])
     \<and> (\<forall>c \<in> set cs. delivered c = Init)
     \<and> errors s' = errors s @ logged env cs"
  by (auto simp: load_step_def Let_def try_call_calls try_call_errors logged_def
      split: option.splits)

lemma load_mods_result:
  "load_mods env items (ints, sb, s) = Inr (ints', sb', s') \<Longrightarrow>
     mods sb' = mods sb @ map (require env) (enabled_items env items)
   \<and> set ints' = set ints \<union> (\<Union>item \<in> set (enabled_items env items). requested env item)
   \<and> (distinct ints \<longrightarrow> distinct ints')
   \<and> ran (cmdMgr sb') \<subseteq> ran (cmdMgr sb) \<union> require env ` set (enabled_items env items)
   \<and> clientOptions sb' = clientOptions sb \<and> config_prefix sb' = config_prefix sb
   \<and> client sb' = client sb"
proof (induction items arbitrary: ints sb s)
  case Nil
  then show ?case by (simp add: enabled_items_def)
next
  case (Cons item items)
  show ?case
  proof (cases "loads env item")
    case False
    then show ?thesis
      using Cons.IH[of ints sb s] Cons.prems by (simp add: load_mods_skip enabled_items_def)
  next
    case True
    then obtain ns where ns: "intents (heap env (require env item)) = Some ns"
      using Cons.prems by (auto simp: load_mods_load split: option.splits)
    obtain ints1 sb1 s1 where st: "load_step env item ns (ints, sb, s) = (ints1, sb1, s1)"
      by (cases "load_step env item ns (ints, sb, s)") auto
    have rest: "load_mods env items (ints1, sb1, s1) = Inr (ints', sb', s')"
      using Cons.prems True ns st by (simp add: load_mods_load)
    note f = load_step_fields[OF st]
    note ih = Cons.IH[OF rest]
    have en: "enabled_items env (item # items) = item # enabled_items env items"
      using True by (simp add: enabled_items_def)
    have req: "requested env item = set ns" by (simp add: requested_def ns)
    have r1: "ran (cmdMgr sb1) \<subseteq> insert (require env item) (ran (cmdMgr sb))"
      using f ran_register by metis
    show ?thesis
      unfolding en using ih f r1
      by (auto simp: push_unique_set push_unique_distinct req)
  qed
qed

lemma load_mods_calls:
  "load_mods env items (ints, sb, s) = Inr (ints', sb', s') \<Longrightarrow>
   \<exists>cs. calls s' = calls s @ cs
     \<and> map target cs =
         map (require env)
           (filter (\<lambda>item. onInit (heap env (require env item)) \<noteq> None) (enabled_items env items))
     \<and> (\<forall>c \<in> set cs. delivered c = Init)
     \<and> errors s' = errors s @ logged env cs"
proof (induction items arbitrary: ints sb s)
  case Nil
  then show ?case by (simp add: enabled_items_def logged_def)
next
  case (Cons item items)
  show ?case
  proof (cases "loads env item")
    case False
    then show ?thesis
      using Cons.IH[of ints sb s] Cons.prems by (simp add: load_mods_skip enabled_items_def)
  next
    case True
    then obtain ns where ns: "intents (heap env (require env item)) = Some ns"
      using Cons.prems by (auto simp: load_mods_load split: option.splits)
    obtain ints1 sb1 s1 where st: "load_step env item ns (ints, sb, s) = (ints1, sb1, s1)"
      by (cases "load_step env item ns (ints, sb, s)") auto
    have rest: "load_mods env items (ints1, sb1, s1) = Inr (ints', sb', s')"
      using Cons.prems True ns st by (simp add: load_mods_load)
    obtain cs1 where cs1: "calls s1 = calls s @ cs1"
      "map target cs1 = (if onInit (heap env (require env item)) \<noteq> None then [require env item] else [])"
      "\<forall>c \<in> set cs1. delivered c = Init" "errors s1 = errors s @ logged env cs1"
      using load_step_calls[OF st] by blast
    obtain cs2 where cs2: "calls s' = calls s1 @ cs2"
      "map target cs2 = map (require env)
           (filter (\<lambda>item. onInit (heap env (require env item)) \<noteq> None) (enabled_items env items))"
      "\<forall>c \<in> set cs2. delivered c = Init" "errors s' = errors s1 @ logged env cs2"
      using Cons.IH[OF rest] by blast
    have en: "enabled_items env (item # items) = item # enabled_items env items"
      using True by (simp add: enabled_items_def)
    have "calls s' = calls s @ (cs1 @ cs2)" using cs1(1) cs2(1) by simp
    moreover have "map target (cs1 @ cs2) = map (require env)
           (filter (\<lambda>item. onInit (heap env (require env item)) \<noteq> None) (enabled_items env (item # items)))"
      unfolding en using cs1(2) cs2(2) by simp
    moreover have "\<forall>c \<in> set (cs1 @ cs2). delivered c = Init" using cs1(3) cs2(3) by auto
    moreover have "errors s' = errors s @ logged env (cs1 @ cs2)"
      using cs1(4) cs2(4) by (simp add: logged_append)
    ultimately show ?thesis by blast
  qed
qed

lemma load_mods_readdir:
  "load_mods (env\<lparr>readdir := d\<rparr>) items acc = load_mods env items acc"
proof (induction items arbitrary: acc)
  case Nil
  show ?case by (cases acc rule: prod_cases3) simp
next
  case (Cons item items)
  show ?case
    by (cases acc rule: prod_cases3) (simp add: load_mods.simps Cons.IH Let_def split: option.splits)
qed

lemma enabled_items_without:
  "disabled (heap env r) \<Longrightarrow>
   enabled_items env (filter (\<lambda>item. require env item \<noteq> r) items) = enabled_items env items"
  by (induction items) (auto simp: enabled_items_def loads_def)

lemma load_mods_without:
  assumes "disabled (heap env r)"
  shows "load_mods env (filter (\<lambda>item. require env item \<noteq> r) items) acc = load_mods env items acc"
proof -
  have "load_mods env (filter (\<lambda>item. require env item \<noteq> r) items) acc =
        load_mods env (enabled_items env (filter (\<lambda>item. require env item \<noteq> r) items)) acc"
    by (rule load_mods_enabled)
  also have "\<dots> = load_mods env (enabled_items env items) acc"
    using assms by (simp add: enabled_items_without)
  also have "\<dots> = load_mods env items acc"
    by (rule load_mods_enabled[symmetric])
  finally show ?thesis .
qed

lemma enabled_items_not_disabled:
  "item \<in> set (enabled_items env items) \<Longrightarrow> \<not> disabled (heap env (require env item))"
  by (simp add: enabled_items_def loads_def)

lemma init_Inr:
  "init env sb s = Inr (sb', s') \<Longrightarrow>
   \<exists>ints sb1 u. load_mods env (readdir env) ([], sb, s) = Inr (ints, sb1, s')
     \<and> sb' = sb1\<lparr>client := Some u\<rparr>"
  by (auto simp: init_def Let_def split: sum.splits option.splits)

subsection \<open>The concrete host, evaluated\<close>

lemma ex_load:
  "load_mods ex_env (readdir ex_env) ([], ex_new, s0) =
     Inr ([1, 512, 2], ex_bot\<lparr>client := None\<rparr>, ex_loaded)"
  by (simp add: load_defs ex_defs)

lemma ex_init: "init ex_env ex_new s0 = Inr (ex_bot, ex_loaded)"
  by (simp add: load_defs ex_defs)

lemma ex_enabled:
  "enabled_items ex_env (readdir ex_env) = [js ''a.js'', js ''b.js'', js ''q.js'']"
  by (simp add: load_defs ex_defs)

section \<open>The claims\<close>

text \<open>
  Claim C1, amended. A message that starts with the prefix, whose tokens after stripping
  the prefix, trimming and splitting at runs of spaces (U+0020) are \<open>tok # args\<close>, and
  whose lower-cased \<open>tok\<close> resolves to a mod \<open>r\<close>, is delivered to the on-message
  handler of \<open>r\<close> alone, with \<open>args\<close> as the argument list: the dispatcher returns, the
  one invocation added is that of \<open>r\<close> (none when \<open>r\<close> has no such handler), and the
  world is what that handler left.
\<close>

theorem command_delivered_exclusively:
  assumes "startsWith (content message) (config_prefix sb)"
    and "command_tokens sb message = tok # args"
    and "getMod (normalize env) (cmdMgr sb) (toLocaleLowerCase env tok) = Some r"
  shows "\<exists>s'. onMessage env sb message s = Inr s'
           \<and> calls s' = calls s @
                (case onMsgCreate (heap env r) of
                   None \<Rightarrow> []
                 | Some h \<Rightarrow> [Invoked r (MsgCreate message (Some args))
                               (fst (h message (Some args) sb (world s)))])
           \<and> world s' =
                (case onMsgCreate (heap env r) of
                   None \<Rightarrow> world s
                 | Some h \<Rightarrow> snd (h message (Some args) sb (world s)))"
  using assms
  by (simp add: onMessage_command try_call_calls try_call_world split: option.splits)

theorem command_delivered_exclusively_witness:
  "startsWith (content msg_cmd) (config_prefix ex_bot)
   \<and> command_tokens ex_bot msg_cmd = [js ''M'', js ''@user'', js ''now'']
   \<and> getMod (normalize ex_env) (cmdMgr ex_bot) (toLocaleLowerCase ex_env (js ''M'')) = Some 1
   \<and> onMsgCreate (heap ex_env 1) \<noteq> None
   \<and> (\<exists>s'. onMessage ex_env ex_bot msg_cmd s0 = Inr s'
         \<and> calls s' = [Invoked 1 (MsgCreate msg_cmd (Some [js ''@user'', js ''now''])) None]
         \<and> world s' = [''A.create''])"
proof -
  have a: "startsWith (content msg_cmd) (config_prefix ex_bot)"
    by (simp add: eval_defs ex_defs msg_defs)
  have b: "command_tokens ex_bot msg_cmd = [js ''M'', js ''@user'', js ''now'']"
    by (simp add: eval_defs ex_defs msg_defs)
  have c: "getMod (normalize ex_env) (cmdMgr ex_bot) (toLocaleLowerCase ex_env (js ''M'')) = Some 1"
    by (simp add: eval_defs ex_defs)
  have d: "onMsgCreate (heap ex_env 1) =
      Some (\<lambda>m a sb w. (if a = None then Some boom else None, w @ [''A.create'']))"
    by (simp add: ex_defs)
  show ?thesis
    using a b c command_delivered_exclusively[OF a b c, of s0]
    unfolding d by (simp add: s0_def)
qed

text \<open>
  Claim C1 as stated speaks of the first whitespace-separated token. With a tab between
  the keyword and its argument that token is \<^verbatim>\<open>mute\<close>, which resolves to \<open>A\<close>, but
  the code splits at spaces only, looks up \<^verbatim>\<open>mute<TAB>@user\<close>, finds nothing, and
  delivers the message to every mod as a plain one.
\<close>

theorem whitespace_token_counterexample:
  "startsWith (content msg_tab) (config_prefix ex_bot)
   \<and> spec_command_tokens ex_bot msg_tab = [js ''mute'', js ''@user'']
   \<and> getMod (normalize ex_env) (cmdMgr ex_bot) (toLocaleLowerCase ex_env (js ''mute'')) = Some 1
   \<and> onMsgCreate (heap ex_env 1) \<noteq> None
   \<and> onMessage ex_env ex_bot msg_tab s0 =
       Inr \<lparr>world = [''A.create'', ''B.create''],
            errors = [js ''[A] Error: boom'' @ 0x0A # js ''Error: boom at A''],
            calls = [Invoked 1 (MsgCreate msg_tab None) (Some boom),
                     Invoked 2 (MsgCreate msg_tab None) None]\<rparr>"
  by (simp add: spec_command_tokens_def eval_defs ex_defs msg_defs)

text \<open>
  Claim C2. A message whose content does not start with the prefix is to reach every mod
  that has an on-message handler exactly once, in load order, with \<^verbatim>\<open>undefined\<close> as
  the argument. That holds when the mod list names every mod once, and fails otherwise:
  \<^verbatim>\<open>__onMessage\<close> walks \<^verbatim>\<open>this.mods\<close> as it is, while \<^verbatim>\<open>__onDelete\<close> and
  \<^verbatim>\<open>__onUpdate\<close> first remove repeated entries. Two files of the directory that load
  to one object put it into the list twice; a plain message then reaches its on-message
  handler twice, and a deleted message reaches its on-delete handler once.
\<close>

theorem duplicate_mod_called_twice:
  "require ex_alias_env (js ''b.js'') = require ex_alias_env (js ''b2.js'')
   \<and> init ex_alias_env ex_new s0 =
        Inr (ex_alias_bot,
             \<lparr>world = [''B.init'', ''B.init''], errors = [],
              calls = [Invoked 2 Init None, Invoked 2 Init None]\<rparr>)
   \<and> \<not> startsWith (content msg_plain) (config_prefix ex_alias_bot)
   \<and> onMessage ex_alias_env ex_alias_bot msg_plain s0 =
        Inr \<lparr>world = [''B.create'', ''B.create''], errors = [],
             calls = [Invoked 2 (MsgCreate msg_plain None) None,
                      Invoked 2 (MsgCreate msg_plain None) None]\<rparr>
   \<and> onDelete ex_alias_env ex_alias_bot msg_plain s0 =
        \<lparr>world = [''B.delete''], errors = [],
         calls = [Invoked 2 (MsgDelete msg_plain [js ''hello'']) None]\<rparr>"
  by (simp add: ex_alias_env_def ex_alias_bot_def load_defs onDelete_def deliver_delete_def
      eval_defs ex_defs msg_defs)

text \<open>
  Claim C3. A message that starts with the prefix and whose keyword does not resolve is
  treated as a plain message. The dispatcher returns without an error, and the state it
  returns is that of calling, in the order of the mod list, the on-message handler of
  every mod that has one, with the message and \<^verbatim>\<open>undefined\<close>: the world is what those
  handlers leave, one invocation is added for each with its outcome, and one line is
  logged for each that threw. A message that does not start with the prefix gives the
  state described in the same words. A message that trims to nothing after the prefix has
  the empty keyword.
\<close>

theorem unresolved_command_is_plain_message:
  assumes "startsWith (content message) (config_prefix sb)"
    and "getMod (normalize env) (cmdMgr sb)
           (toLocaleLowerCase env (hd (command_tokens sb message))) = None"
  shows "onMessage env sb message s =
           Inr \<lparr>world = world_after (plain_deliveries env sb message (mods sb)) (world s),
                errors = errors s @
                  logged env (replay (plain_deliveries env sb message (mods sb)) (world s)),
                calls = calls s @ replay (plain_deliveries env sb message (mods sb)) (world s)\<rparr>
         \<and> map target (replay (plain_deliveries env sb message (mods sb)) (world s)) =
             filter (\<lambda>r. onMsgCreate (heap env r) \<noteq> None) (mods sb)
         \<and> (\<forall>c \<in> set (replay (plain_deliveries env sb message (mods sb)) (world s)).
               delivered c = MsgCreate message None)
         \<and> (\<forall>m. \<not> startsWith (content m) (config_prefix sb) \<longrightarrow>
               onMessage env sb m s =
                 Inr \<lparr>world = world_after (plain_deliveries env sb m (mods sb)) (world s),
                      errors = errors s @
                        logged env (replay (plain_deliveries env sb m (mods sb)) (world s)),
                      calls = calls s @ replay (plain_deliveries env sb m (mods sb)) (world s)\<rparr>)
         \<and> (trim (replace (content message) (config_prefix sb) []) = [] \<longrightarrow>
               hd (command_tokens sb message) = [])"
proof -
  obtain tok args where t: "command_tokens sb message = tok # args"
    using command_tokens_not_Nil[of sb message] by (cases "command_tokens sb message") auto
  have 1: "onMessage env sb message s =
           Inr \<lparr>world = world_after (plain_deliveries env sb message (mods sb)) (world s),
                errors = errors s @
                  logged env (replay (plain_deliveries env sb message (mods sb)) (world s)),
                calls = calls s @ replay (plain_deliveries env sb message (mods sb)) (world s)\<rparr>"
    using assms t by (simp add: onMessage_command plain_fanout_state)
  have 2: "map target (replay (plain_deliveries env sb message (mods sb)) (world s)) =
             filter (\<lambda>r. onMsgCreate (heap env r) \<noteq> None) (mods sb)"
    by (simp add: replay_targets plain_deliveries_targets)
  have 3: "\<forall>c \<in> set (replay (plain_deliveries env sb message (mods sb)) (world s)).
               delivered c = MsgCreate message None"
    using plain_deliveries_events by (rule replay_delivered)
  have 4: "\<forall>m. \<not> startsWith (content m) (config_prefix sb) \<longrightarrow>
               onMessage env sb m s =
                 Inr \<lparr>world = world_after (plain_deliveries env sb m (mods sb)) (world s),
                      errors = errors s @
                        logged env (replay (plain_deliveries env sb m (mods sb)) (world s)),
                      calls = calls s @ replay (plain_deliveries env sb m (mods sb)) (world s)\<rparr>"
    by (simp add: onMessage_plain plain_fanout_state)
  have 5: "trim (replace (content message) (config_prefix sb) []) = [] \<longrightarrow>
               hd (command_tokens sb message) = []"
    by (simp add: command_tokens_def split_spaces_def)
  show ?thesis using 1 2 3 4 5 by blast
qed

theorem unresolved_command_is_plain_message_witness:
  "startsWith (content msg_unknown) (config_prefix ex_bot)
   \<and> trim (replace (content msg_unknown) (config_prefix ex_bot) []) = []
   \<and> hd (command_tokens ex_bot msg_unknown) = []
   \<and> getMod (normalize ex_env) (cmdMgr ex_bot)
        (toLocaleLowerCase ex_env (hd (command_tokens ex_bot msg_unknown))) = None
   \<and> onMessage ex_env ex_bot msg_unknown s0 =
        Inr \<lparr>world = [''A.create'', ''B.create''],
             errors = [js ''[A] Error: boom'' @ 0x0A # js ''Error: boom at A''],
             calls = [Invoked 1 (MsgCreate msg_unknown None) (Some boom),
                      Invoked 2 (MsgCreate msg_unknown None) None]\<rparr>
   \<and> \<not> startsWith (content msg_plain) (config_prefix ex_bot)
   \<and> onMessage ex_env ex_bot msg_plain s0 =
        Inr \<lparr>world = [''A.create'', ''B.create''],
             errors = [js ''[A] Error: boom'' @ 0x0A # js ''Error: boom at A''],
             calls = [Invoked 1 (MsgCreate msg_plain None) (Some boom),
                      Invoked 2 (MsgCreate msg_plain None) None]\<rparr>"
proof -
  have a: "startsWith (content msg_unknown) (config_prefix ex_bot)"
    by (simp add: eval_defs ex_defs msg_defs)
  have t: "trim (replace (content msg_unknown) (config_prefix ex_bot) []) = []"
    by (simp add: eval_defs ex_defs msg_defs)
  have h: "hd (command_tokens ex_bot msg_unknown) = []"
    by (simp add: eval_defs ex_defs msg_defs)
  have b: "getMod (normalize ex_env) (cmdMgr ex_bot)
        (toLocaleLowerCase ex_env (hd (command_tokens ex_bot msg_unknown))) = None"
    unfolding h by (simp add: eval_defs ex_defs)
  have n: "\<not> startsWith (content msg_plain) (config_prefix ex_bot)"
    by (simp add: eval_defs ex_defs msg_defs)
  have d: "plain_deliveries ex_env ex_bot m (mods ex_bot) =
      [(1, MsgCreate m None, \<lambda>w. (Some boom, w @ [''A.create''])),
       (2, MsgCreate m None, \<lambda>w. (None, w @ [''B.create'']))]" for m
    by (simp add: plain_deliveries_def ex_defs)
  note inst = unresolved_command_is_plain_message[OF a b, of s0]
  have u: "onMessage ex_env ex_bot msg_unknown s0 =
        Inr \<lparr>world = [''A.create'', ''B.create''],
             errors = [js ''[A] Error: boom'' @ 0x0A # js ''Error: boom at A''],
             calls = [Invoked 1 (MsgCreate msg_unknown None) (Some boom),
                      Invoked 2 (MsgCreate msg_unknown None) None]\<rparr>"
    using inst unfolding d by (simp add: s0_def logged_def error_line_def ex_defs)
  have p: "onMessage ex_env ex_bot msg_plain s0 =
        Inr \<lparr>world = [''A.create'', ''B.create''],
             errors = [js ''[A] Error: boom'' @ 0x0A # js ''Error: boom at A''],
             calls = [Invoked 1 (MsgCreate msg_plain None) (Some boom),
                      Invoked 2 (MsgCreate msg_plain None) None]\<rparr>"
    using inst n unfolding d by (simp add: s0_def logged_def error_line_def ex_defs)
  show ?thesis using a t h b u n p by simp
qed

text \<open>
  Claim C4. In a registry where the keyword \<open>x\<close> is not yet taken, registering a mod
  \<open>A\<close> that has \<open>x\<close> among its aliases and then a mod \<open>B\<close> whose primary command is
  \<open>x\<close> (both up to normalisation) leaves \<open>x\<close> resolving to \<open>A\<close>; and no registration
  changes what a keyword already resolves to.
\<close>

theorem alias_not_shadowed_by_later_command:
  assumes "getMod norm reg x = None"
    and "aliases A = Some as" and "a \<in> set as" and "norm a = norm x"
    and "command B = Some c" and "norm c = norm x"
  shows "getMod norm (register norm rb B (register norm ra A reg)) x = Some ra
         \<and> (\<forall>k r m r'. getMod norm reg k = Some r \<longrightarrow>
               getMod norm (register norm r' m reg) k = Some r)"
proof -
  have "foldl (register_keyword norm ra) reg as (norm x) = Some ra"
    using assms(1,3,4) by (simp add: getMod_def register_keywords_claims)
  then have "register norm ra A reg (norm x) = Some ra"
    using assms(2) by (auto simp: register_def Let_def register_keyword_keep split: option.splits)
  then have "register norm rb B (register norm ra A reg) (norm x) = Some ra"
    by (rule register_keep)
  then show ?thesis by (simp add: getMod_def register_keep)
qed

theorem alias_not_shadowed_by_later_command_witness:
  "getMod ex_lower Map.empty (js ''M'') = None
   \<and> aliases mod_A = Some [js ''m''] \<and> js ''m'' \<in> set [js ''m'']
   \<and> ex_lower (js ''m'') = ex_lower (js ''M'')
   \<and> command mod_B = Some (js ''m'')
   \<and> getMod ex_lower (register ex_lower 2 mod_B (register ex_lower 1 mod_A Map.empty)) (js ''M'')
        = Some 1"
proof -
  have 1: "getMod ex_lower Map.empty (js ''M'') = None" by (simp add: getMod_def)
  have 2: "aliases mod_A = Some [js ''m'']" by (simp add: mod_A_def)
  have 3: "js ''m'' \<in> set [js ''m'']" by simp
  have 4: "ex_lower (js ''m'') = ex_lower (js ''M'')" by (simp add: ex_lower_def)
  have 5: "command mod_B = Some (js ''m'')" by (simp add: mod_B_def)
  show ?thesis
    using 1 2 4 5 alias_not_shadowed_by_later_command[OF 1 2 3 4 5 4, of 2 1]
    by auto
qed

text \<open>
  Claim C5. A mod object whose \<^verbatim>\<open>disabled\<close> is set is skipped by loading: taking
  its files out of the directory changes nothing in what \<^verbatim>\<open>__init\<close> returns, the
  requested intents included; and whenever \<^verbatim>\<open>__init\<close> of a freshly constructed bot
  completes, the object is not in the mod list, no keyword of the command manager
  resolves to it, and none of its handlers was called, its init handler in particular.
\<close>

theorem disabled_mod_is_skipped:
  assumes "disabled (heap env r)"
  shows "init (env\<lparr>readdir := filter (\<lambda>item. require env item \<noteq> r) (readdir env)\<rparr>) sb s
           = init env sb s
         \<and> (\<forall>sb' s'. init env (new_SucklessBot pre opts) s = Inr (sb', s') \<longrightarrow>
                r \<notin> set (mods sb') \<and> r \<notin> ran (cmdMgr sb')
                \<and> r \<notin> target ` set (new_calls s s'))"
proof -
  let ?sb = "new_SucklessBot pre opts"
  have nr: "r \<notin> require env ` set (enabled_items env (readdir env))"
    using assms enabled_items_not_disabled[of _ env "readdir env"] by auto
  have same: "init (env\<lparr>readdir := filter (\<lambda>item. require env item \<noteq> r) (readdir env)\<rparr>) sb s
          = init env sb s"
    using assms by (simp add: init_def load_mods_readdir load_mods_without)
  have "r \<notin> set (mods sb') \<and> r \<notin> ran (cmdMgr sb') \<and> r \<notin> target ` set (new_calls s s')"
    if i: "init env ?sb s = Inr (sb', s')" for sb' s'
  proof -
    obtain ints sb1 u where l: "load_mods env (readdir env) ([], ?sb, s) = Inr (ints, sb1, s')"
      and sb': "sb' = sb1\<lparr>client := Some u\<rparr>"
      using init_Inr[OF i] by blast
    have res: "mods sb1 = mods ?sb @ map (require env) (enabled_items env (readdir env))"
      "ran (cmdMgr sb1) \<subseteq> ran (cmdMgr ?sb) \<union> require env ` set (enabled_items env (readdir env))"
      using load_mods_result[OF l] by auto
    have m: "r \<notin> set (mods sb')"
      using res(1) nr by (auto simp: sb' new_SucklessBot_def)
    have c: "r \<notin> ran (cmdMgr sb')"
      using res(2) nr by (auto simp: sb' new_SucklessBot_def)
    obtain cs where cs: "calls s' = calls s @ cs"
      "map target cs = map (require env)
         (filter (\<lambda>item. onInit (heap env (require env item)) \<noteq> None) (enabled_items env (readdir env)))"
      using load_mods_calls[OF l] by blast
    have "set (map target cs) \<subseteq> require env ` set (enabled_items env (readdir env))"
      unfolding cs(2) by auto
    then have t: "r \<notin> target ` set (new_calls s s')"
      using nr new_calls_append[OF cs(1)] by auto
    show ?thesis using m c t by simp
  qed
  then show ?thesis using same by blast
qed

theorem disabled_mod_is_skipped_witness:
  "disabled (heap ex_env 3) \<and> require ex_env (js ''d.js'') = 3
   \<and> js ''d.js'' \<in> set (readdir ex_env)
   \<and> init ex_env (new_SucklessBot (js ''!'') (Some \<lparr>ClientOptions_intents = []\<rparr>)) s0
        = Inr (ex_bot, ex_loaded)
   \<and> 3 \<notin> set (mods ex_bot) \<and> 3 \<notin> ran (cmdMgr ex_bot)
   \<and> 3 \<notin> target ` set (new_calls s0 ex_loaded)
   \<and> init (ex_env\<lparr>readdir := [js ''a.js'', js ''notes.txt'', js ''b.js'', js ''q.js'']\<rparr>)
        (new_SucklessBot (js ''!'') (Some \<lparr>ClientOptions_intents = []\<rparr>)) s0
        = Inr (ex_bot, ex_loaded)"
proof -
  have d: "disabled (heap ex_env 3)" by (simp add: ex_defs)
  have i: "init ex_env (new_SucklessBot (js ''!'') (Some \<lparr>ClientOptions_intents = []\<rparr>)) s0
        = Inr (ex_bot, ex_loaded)"
    using ex_init by (simp add: ex_new_def)
  have f: "filter (\<lambda>item. require ex_env item \<noteq> 3) (readdir ex_env) =
      [js ''a.js'', js ''notes.txt'', js ''b.js'', js ''q.js'']"
    by (simp add: ex_defs)
  have r: "require ex_env (js ''d.js'') = 3 \<and> js ''d.js'' \<in> set (readdir ex_env)"
    by (simp add: ex_defs)
  show ?thesis
    using d i r
      disabled_mod_is_skipped[OF d, of "new_SucklessBot (js ''!'') (Some \<lparr>ClientOptions_intents = []\<rparr>)"
        s0 "js ''!''" "Some \<lparr>ClientOptions_intents = []\<rparr>"]
    unfolding f by auto
qed

text \<open>
  Claim C6. Whatever a handler throws is to be caught where the handler is called, logged
  and swallowed, the mods after it still being called. That fails for a handler that
  throws \<^verbatim>\<open>null\<close> or
  \<^verbatim>\<open>undefined\<close>: the catch block itself raises a TypeError, which leaves the
  dispatcher, and the mods after it are not called. Here \<open>A\<close> throws \<^verbatim>\<open>null\<close> on a
  plain message and \<open>B\<close>, next in the list, never runs; when \<open>A\<close> throws an error
  object instead, the line is logged and \<open>B\<close> runs.
\<close>

theorem null_throw_escapes:
  "try_catch 1 (js ''A'') (MsgCreate msg_plain None)
      (\<lambda>w. (Some ThrownNull, w @ [''A.create''])) s0 = Inl TypeError
   \<and> mods ex_bot = [1, 2, 4]
   \<and> forEach_onMsgCreate ex_env ex_null_handlers ex_bot msg_plain (mods ex_bot) s0 = Inl TypeError
   \<and> forEach_onMsgCreate ex_env
        (\<lambda>r. map_option (\<lambda>h m a sb. as_raw (h m a sb)) (onMsgCreate (ex_heap r)))
        ex_bot msg_plain (mods ex_bot) s0 =
        Inr \<lparr>world = [''A.create'', ''B.create''],
             errors = [js ''[A] Error: boom'' @ 0x0A # js ''Error: boom at A''],
             calls = [Invoked 1 (MsgCreate msg_plain None) (Some boom),
                      Invoked 2 (MsgCreate msg_plain None) None]\<rparr>"
  by (simp add: try_catch_def catch_block_def as_raw_def ex_null_handlers_def
      eval_defs ex_defs msg_defs)

text \<open>
  Claim C7, amended. For a host constructed with client options, and mods that all name
  their intents, \<^verbatim>\<open>__init\<close> completes and constructs the client with: the configured
  intents when these are not empty, whatever the mods request; and otherwise a
  duplicate-free list whose elements are exactly the intents requested by the enabled
  mods.
\<close>

theorem requested_intents:
  assumes "clientOptions sb = Some opts"
    and "\<forall>item \<in> set (enabled_items env (readdir env)). intents (heap env (require env item)) \<noteq> None"
  shows "\<exists>sb' s'. init env sb s = Inr (sb', s')
           \<and> (ClientOptions_intents opts \<noteq> [] \<longrightarrow> client sb' = Some (ClientOptions_intents opts))
           \<and> (ClientOptions_intents opts = [] \<longrightarrow>
                (\<exists>u. client sb' = Some u \<and> distinct u
                   \<and> set u = (\<Union>item \<in> set (enabled_items env (readdir env)). requested env item)))"
proof -
  obtain ints sb1 s1 where l: "load_mods env (readdir env) ([], sb, s) = Inr (ints, sb1, s1)"
    using load_mods_succeeds[OF assms(2), of "([], sb, s)"] by (metis prod_cases3)
  have res: "set ints = (\<Union>item \<in> set (enabled_items env (readdir env)). requested env item)"
    "distinct ints" "clientOptions sb1 = clientOptions sb"
    using load_mods_result[OF l] by auto
  let ?u = "if ClientOptions_intents opts \<noteq> [] then ClientOptions_intents opts else ints"
  have "init env sb s = Inr (sb1\<lparr>client := Some ?u\<rparr>, s1)"
    using l res(3) assms(1) by (simp add: init_def toString_intents_Nil)
  then show ?thesis using res(1,2) by auto
qed

theorem requested_intents_witness:
  "clientOptions ex_new = Some \<lparr>ClientOptions_intents = []\<rparr>
   \<and> enabled_items ex_env (readdir ex_env) = [js ''a.js'', js ''b.js'', js ''q.js'']
   \<and> map (\<lambda>item. intents (heap ex_env (require ex_env item))) [js ''a.js'', js ''b.js'', js ''q.js'']
        = [Some [1, 512], Some [512, 2], Some []]
   \<and> (\<exists>sb' s'. init ex_env ex_new s0 = Inr (sb', s') \<and> client sb' = Some [1, 512, 2]
         \<and> set [1, 512, 2] = (\<Union>item \<in> set (enabled_items ex_env (readdir ex_env)). requested ex_env item))
   \<and> (\<exists>sb' s'. init ex_env (ex_new\<lparr>clientOptions := Some \<lparr>ClientOptions_intents = [4, 4]\<rparr>\<rparr>) s0
                  = Inr (sb', s') \<and> client sb' = Some [4, 4])"
proof -
  have c: "clientOptions ex_new = Some \<lparr>ClientOptions_intents = []\<rparr>"
    by (simp add: ex_new_def new_SucklessBot_def)
  have c': "clientOptions (ex_new\<lparr>clientOptions := Some \<lparr>ClientOptions_intents = [4, 4]\<rparr>\<rparr>)
      = Some \<lparr>ClientOptions_intents = [4, 4]\<rparr>"
    by simp
  have m: "map (\<lambda>item. intents (heap ex_env (require ex_env item))) [js ''a.js'', js ''b.js'', js ''q.js'']
        = [Some [1, 512], Some [512, 2], Some []]"
    by (simp add: ex_defs)
  have a: "\<forall>item \<in> set (enabled_items ex_env (readdir ex_env)).
             intents (heap ex_env (require ex_env item)) \<noteq> None"
    unfolding ex_enabled by (simp add: ex_defs)
  have i: "init ex_env ex_new s0 = Inr (ex_bot, ex_loaded)" by (rule ex_init)
  have b: "client ex_bot = Some [1, 512, 2]" by (simp add: ex_defs)
  show ?thesis
    using c m ex_enabled i b requested_intents[OF c a, of s0] requested_intents[OF c' a, of s0]
    by auto
qed

text \<open>
  Claim C7 as stated is about every host. A host constructed without client options, whose
  mods request intents, requests nothing: \<^verbatim>\<open>__init\<close> raises a TypeError when it reads
  \<^verbatim>\<open>this.__clientOptions.intents\<close>. Nor is anything requested when an enabled mod has no
  \<^verbatim>\<open>intents\<close>.
\<close>

theorem no_client_options_counterexample:
  "clientOptions (new_SucklessBot (js ''!'') None) = None
   \<and> map (\<lambda>item. intents (heap ex_env (require ex_env item))) (enabled_items ex_env (readdir ex_env))
        = [Some [1, 512], Some [512, 2], Some []]
   \<and> init ex_env (new_SucklessBot (js ''!'') None) s0 = Inl TypeError
   \<and> intents (heap ex_env (require ex_env (js ''x.js''))) = None
   \<and> init (ex_env\<lparr>readdir := [js ''b.js'', js ''x.js'']\<rparr>) ex_new s0 = Inl TypeError"
  by (simp add: load_defs ex_defs)




text \<open>
  Claim C9, amended. Loading a directory completes exactly when every enabled mod in it
  has \<^verbatim>\<open>intents\<close>: the primary command, the aliases and the four handlers may each be
  present or absent. Dispatching a message never raises an error, whichever handlers the
  mods have.
\<close>

theorem loading_needs_intents_only:
  "((\<exists>acc'. load_mods env items acc = Inr acc') \<longleftrightarrow>
      (\<forall>item \<in> set (enabled_items env items). intents (heap env (require env item)) \<noteq> None))
   \<and> (\<exists>s'. onMessage env sb message s = Inr s')"
proof -
  have "(\<exists>acc'. load_mods env items acc = Inr acc') \<longleftrightarrow>
      (\<forall>item \<in> set (enabled_items env items). intents (heap env (require env item)) \<noteq> None)"
    using load_mods_succeeds[of env items acc] load_mods_fails[of _ env items acc] by fastforce
  moreover have "\<exists>s'. onMessage env sb message s = Inr s'"
    using command_tokens_not_Nil[of sb message]
    by (auto simp: onMessage_def command_tokens_def Let_def split: list.splits option.splits)
  ultimately show ?thesis by blast
qed

theorem loading_needs_intents_only_witness:
  "enabled_items ex_env (readdir ex_env) = [js ''a.js'', js ''b.js'', js ''q.js'']
   \<and> map (\<lambda>item. intents (heap ex_env (require ex_env item))) [js ''a.js'', js ''b.js'', js ''q.js'']
        = [Some [1, 512], Some [512, 2], Some []]
   \<and> aliases mod_B = None \<and> onMsgCreate mod_Q = None \<and> onInit mod_Q = None
   \<and> (\<exists>acc'. load_mods ex_env (readdir ex_env) ([], ex_new, s0) = Inr acc')
   \<and> (\<exists>s'. onMessage ex_env ex_bot msg_quiet s0 = Inr s')"
proof -
  have m: "map (\<lambda>item. intents (heap ex_env (require ex_env item))) [js ''a.js'', js ''b.js'', js ''q.js'']
        = [Some [1, 512], Some [512, 2], Some []]"
    by (simp add: ex_defs)
  have a: "\<forall>item \<in> set (enabled_items ex_env (readdir ex_env)).
             intents (heap ex_env (require ex_env item)) \<noteq> None"
    unfolding ex_enabled by (simp add: ex_defs)
  have f: "aliases mod_B = None \<and> onMsgCreate mod_Q = None \<and> onInit mod_Q = None"
    by (simp add: ex_defs)
  show ?thesis
    using m a f ex_enabled
      loading_needs_intents_only[of ex_env "readdir ex_env" "([], ex_new, s0)" ex_bot msg_quiet s0]
    by simp
qed

text \<open>
  Claim C9 as stated counts the capability set among the fields a mod may leave out. The
  mod \<open>X\<close> has a command and no \<^verbatim>\<open>intents\<close>: \<^verbatim>\<open>mod.intents.forEach\<close> raises a
  TypeError, and loading stops.
\<close>

theorem mod_without_intents_counterexample:
  "\<not> disabled mod_X \<and> intents mod_X = None \<and> command mod_X = Some (js ''x'')
   \<and> require ex_env (js ''x.js'') = 5 \<and> heap ex_env 5 = mod_X
   \<and> load_mods ex_env [js ''x.js''] ([], ex_new, s0) = Inl TypeError
   \<and> init (ex_env\<lparr>readdir := [js ''a.js'', js ''x.js'']\<rparr>) ex_new s0 = Inl TypeError"
  by (simp add: load_defs ex_defs)

text \<open>
  Claim C10. A message that starts with the prefix and whose keyword resolves to a mod
  without an on-message handler is dropped: the state is returned as it was, so no
  handler of any mod ran, nothing was logged and the world is unchanged.
\<close>

theorem command_without_handler_dropped:
  assumes "startsWith (content message) (config_prefix sb)"
    and "command_tokens sb message = tok # args"
    and "getMod (normalize env) (cmdMgr sb) (toLocaleLowerCase env tok) = Some r"
    and "onMsgCreate (heap env r) = None"
  shows "onMessage env sb message s = Inr s"
  using assms by (simp add: onMessage_command)

theorem command_without_handler_dropped_witness:
  "startsWith (content msg_quiet) (config_prefix ex_bot)
   \<and> command_tokens ex_bot msg_quiet = [js ''quiet'', js ''please'']
   \<and> getMod (normalize ex_env) (cmdMgr ex_bot) (toLocaleLowerCase ex_env (js ''quiet'')) = Some 4
   \<and> onMsgCreate (heap ex_env 4) = None
   \<and> onMessage ex_env ex_bot msg_quiet s0 = Inr s0"
proof -
  have a: "startsWith (content msg_quiet) (config_prefix ex_bot)"
    by (simp add: eval_defs ex_defs msg_defs)
  have b: "command_tokens ex_bot msg_quiet = [js ''quiet'', js ''please'']"
    by (simp add: eval_defs ex_defs msg_defs)
  have c: "getMod (normalize ex_env) (cmdMgr ex_bot) (toLocaleLowerCase ex_env (js ''quiet'')) = Some 4"
    by (simp add: eval_defs ex_defs)
  have d: "onMsgCreate (heap ex_env 4) = None"
    by (simp add: ex_defs)
  show ?thesis
    using a b c d command_without_handler_dropped[OF a b c d, of s0] by simp
qed

end
